theory Spec2Isabelle
  imports Main "HOL-Library.Word"
begin

section \<open>JavaScript strings\<close>

text \<open>
  A JavaScript string is a sequence of 16-bit UTF-16 code units. String literals of the
  source are ASCII and are written with \<open>str\<close>.
\<close>

type_synonym code_unit = "16 word"
type_synonym jsstring = "code_unit list"

definition str :: "string \<Rightarrow> jsstring" where
  "str s = map (\<lambda>c. of_nat (of_char c)) s"

text \<open>
  \<^verbatim>\<open>String.prototype.trim\<close> removes leading and trailing WhiteSpace and LineTerminator
  code points (ECMA-262): TAB, VT, FF, ZWNBSP, the Unicode space separators, LF, CR,
  LS and PS. All of them are single code units.
\<close>

definition is_white_space :: "code_unit \<Rightarrow> bool" where
  "is_white_space c \<longleftrightarrow>
     c = 0x09 \<or> c = 0x0A \<or> c = 0x0B \<or> c = 0x0C \<or> c = 0x0D \<or> c = 0x20 \<or> c = 0xA0
     \<or> c = 0x1680 \<or> (0x2000 \<le> c \<and> c \<le> 0x200A) \<or> c = 0x2028 \<or> c = 0x2029
     \<or> c = 0x202F \<or> c = 0x205F \<or> c = 0x3000 \<or> c = 0xFEFF"

definition trim :: "jsstring \<Rightarrow> jsstring" where
  "trim s = rev (dropWhile is_white_space (rev (dropWhile is_white_space s)))"

subsection \<open>Decimal numerals\<close>

text \<open>
  \<^verbatim>\<open>Number.prototype.toString\<close> on an integral Number below \<open>10^21\<close> in magnitude is
  its decimal numeral, with a leading minus sign for a negative value. Every time value
  returned by \<^verbatim>\<open>Date.now()\<close> is such a number.
\<close>

definition digit_char :: "nat \<Rightarrow> code_unit" where
  "digit_char d = of_nat (48 + d)"

fun digits :: "nat \<Rightarrow> jsstring" where
  "digits n = (if n < 10 then [digit_char n] else digits (n div 10) @ [digit_char (n mod 10)])"

declare digits.simps [simp del]

definition Number_toString :: "int \<Rightarrow> jsstring" where
  "Number_toString n = (if n < 0 then 0x2D # digits (nat (- n)) else digits (nat n))"

section \<open>JavaScript values\<close>

text \<open>
  The values that \<^verbatim>\<open>JSON.parse\<close> can return and that the component keeps in its state.
  An object is its list of own properties in property order. Numbers are the integral
  Numbers of magnitude at most \<open>2^53\<close>, which binary64 represents exactly.
\<close>

datatype jsval =
    JNull
  | JBool bool
  | JNum int
  | JStr jsstring
  | JArr "jsval list"
  | JObj "(jsstring \<times> jsval) list"

datatype js_error = SyntaxError | TypeError | StorageError

subsection \<open>JSON.stringify\<close>

definition hex_char :: "nat \<Rightarrow> code_unit" where
  "hex_char d = of_nat (if d < 10 then 48 + d else 87 + d)"

definition UnicodeEscape :: "code_unit \<Rightarrow> jsstring" where
  "UnicodeEscape c =
     (let n = unat c
      in [0x5C, 0x75, hex_char (n div 4096), hex_char (n div 256 mod 16),
          hex_char (n div 16 mod 16), hex_char (n mod 16)])"

definition is_high_surrogate :: "code_unit \<Rightarrow> bool" where
  "is_high_surrogate c \<longleftrightarrow> 0xD800 \<le> c \<and> c \<le> 0xDBFF"

definition is_low_surrogate :: "code_unit \<Rightarrow> bool" where
  "is_low_surrogate c \<longleftrightarrow> 0xDC00 \<le> c \<and> c \<le> 0xDFFF"

text \<open>
  One code unit that is not the first half of a surrogate pair, as QuoteJSONString
  writes it: the two-character escapes of the table, a \<^verbatim>\<open>\u\<close> escape for the other
  control characters and for an unpaired surrogate, the code unit itself otherwise.
\<close>

definition quote_unit :: "code_unit \<Rightarrow> jsstring" where
  "quote_unit c =
     (if c = 0x08 then [0x5C, 0x62]
      else if c = 0x09 then [0x5C, 0x74]
      else if c = 0x0A then [0x5C, 0x6E]
      else if c = 0x0C then [0x5C, 0x66]
      else if c = 0x0D then [0x5C, 0x72]
      else if c = 0x22 then [0x5C, 0x22]
      else if c = 0x5C then [0x5C, 0x5C]
      else if c < 0x20 \<or> is_high_surrogate c \<or> is_low_surrogate c then UnicodeEscape c
      else [c])"

fun quote_units :: "jsstring \<Rightarrow> jsstring" where
  "quote_units [] = []"
| "quote_units [c] = quote_unit c"
| "quote_units (c # d # cs) =
     (if is_high_surrogate c \<and> is_low_surrogate d then c # d # quote_units cs
      else quote_unit c @ quote_units (d # cs))"

definition QuoteJSONString :: "jsstring \<Rightarrow> jsstring" where
  "QuoteJSONString s = 0x22 # quote_units s @ [0x22]"

fun join :: "jsstring list \<Rightarrow> jsstring" where
  "join [] = []"
| "join [x] = x"
| "join (x # y # ys) = x @ 0x2C # join (y # ys)"

fun JSON_stringify :: "jsval \<Rightarrow> jsstring" where
  "JSON_stringify JNull = str ''null''"
| "JSON_stringify (JBool b) = (if b then str ''true'' else str ''false'')"
| "JSON_stringify (JNum n) = Number_toString n"
| "JSON_stringify (JStr s) = QuoteJSONString s"
| "JSON_stringify (JArr xs) = 0x5B # join (map JSON_stringify xs) @ [0x5D]"
| "JSON_stringify (JObj ps) =
     0x7B # join (map (\<lambda>(k, v). QuoteJSONString k @ 0x3A # JSON_stringify v) ps) @ [0x7D]"


subsection \<open>JSON.parse\<close>

text \<open>
  A call either returns a value or throws. \<^verbatim>\<open>JSON.parse\<close> returns the value that
  its argument denotes in the JSON grammar (ECMA-404) and throws a SyntaxError on any
  other string. The model reads the grammar in two passes, tokens first and values
  second. It answers \<open>Outside_model\<close>, which says nothing about the program, where
  the string holds something that is not a
  value of \<^typ>\<open>jsval\<close> as modelled here: a number written with a fraction or an
  exponent, an integer above \<open>2^53\<close>, negative zero, and a property name made of
  digits (an array index is moved to the front of the property order).
\<close>

datatype 'a result = Returns 'a | Throws js_error | Outside_model

datatype token =
    TLBracket | TRBracket | TLBrace | TRBrace | TColon | TComma
  | TString jsstring | TNumber int | TTrue | TFalse | TNull

definition hex_value :: "code_unit \<Rightarrow> nat option" where
  "hex_value c =
     (if 0x30 \<le> c \<and> c \<le> 0x39 then Some (unat c - 48)
      else if 0x61 \<le> c \<and> c \<le> 0x66 then Some (unat c - 87)
      else if 0x41 \<le> c \<and> c \<le> 0x46 then Some (unat c - 55)
      else None)"

definition hex4 :: "code_unit \<Rightarrow> code_unit \<Rightarrow> code_unit \<Rightarrow> code_unit \<Rightarrow> code_unit option" where
  "hex4 a b c d =
     (case (hex_value a, hex_value b, hex_value c, hex_value d) of
        (Some w, Some x, Some y, Some z) \<Rightarrow> Some (of_nat (4096 * w + 256 * x + 16 * y + z))
      | _ \<Rightarrow> None)"

definition unescape :: "code_unit \<Rightarrow> code_unit option" where
  "unescape e =
     (if e = 0x22 then Some 0x22
      else if e = 0x5C then Some 0x5C
      else if e = 0x2F then Some 0x2F
      else if e = 0x62 then Some 0x08
      else if e = 0x66 then Some 0x0C
      else if e = 0x6E then Some 0x0A
      else if e = 0x72 then Some 0x0D
      else if e = 0x74 then Some 0x09
      else None)"

definition add_unit :: "code_unit \<Rightarrow> (jsstring \<times> jsstring) result \<Rightarrow> (jsstring \<times> jsstring) result" where
  "add_unit c r = (case r of Returns (s, rest) \<Rightarrow> Returns (c # s, rest) | _ \<Rightarrow> r)"

text \<open>The characters of a string literal after its opening quote, and what follows it.\<close>

fun lex_string :: "jsstring \<Rightarrow> (jsstring \<times> jsstring) result" where
  "lex_string [] = Throws SyntaxError"
| "lex_string (c # cs) =
     (if c = 0x22 then Returns ([], cs)
      else if c = 0x5C then
        (case cs of
           [] \<Rightarrow> Throws SyntaxError
         | e # cs1 \<Rightarrow>
             if e = 0x75 then
               (case cs1 of
                  h1 # h2 # h3 # h4 # cs2 \<Rightarrow>
                    (case hex4 h1 h2 h3 h4 of
                       None \<Rightarrow> Throws SyntaxError
                     | Some u \<Rightarrow> add_unit u (lex_string cs2))
                | _ \<Rightarrow> Throws SyntaxError)
             else
               (case unescape e of
                  None \<Rightarrow> Throws SyntaxError
                | Some u \<Rightarrow> add_unit u (lex_string cs1)))
      else if c < 0x20 then Throws SyntaxError
      else add_unit c (lex_string cs))"

definition is_digit :: "code_unit \<Rightarrow> bool" where
  "is_digit c \<longleftrightarrow> 0x30 \<le> c \<and> c \<le> 0x39"

definition decimal_value :: "jsstring \<Rightarrow> nat" where
  "decimal_value ds = foldl (\<lambda>a c. 10 * a + (unat c - 48)) 0 ds"

definition lex_int_part :: "jsstring \<Rightarrow> (jsstring \<times> jsstring) option" where
  "lex_int_part cs =
     (case cs of
        [] \<Rightarrow> None
      | c # cs' \<Rightarrow>
          if c = 0x30 then Some ([c], cs')
          else if is_digit c then Some (c # takeWhile is_digit cs', dropWhile is_digit cs')
          else None)"

definition starts_fraction_or_exponent :: "jsstring \<Rightarrow> bool" where
  "starts_fraction_or_exponent rest =
     (case rest of [] \<Rightarrow> False | c # _ \<Rightarrow> c = 0x2E \<or> c = 0x65 \<or> c = 0x45)"

definition lex_number :: "jsstring \<Rightarrow> (int \<times> jsstring) result" where
  "lex_number cs =
     (let negative = (case cs of [] \<Rightarrow> False | c # _ \<Rightarrow> c = 0x2D);
          body = (if negative then tl cs else cs)
      in case lex_int_part body of
           None \<Rightarrow> Throws SyntaxError
         | Some (ds, rest) \<Rightarrow>
             if starts_fraction_or_exponent rest then Outside_model
             else
               let n = decimal_value ds
               in if 2 ^ 53 < n \<or> (negative \<and> n = 0) then Outside_model
                  else Returns (if negative then - int n else int n, rest))"

definition add_token :: "token \<Rightarrow> token list result \<Rightarrow> token list result" where
  "add_token t r = (case r of Returns ts \<Rightarrow> Returns (t # ts) | _ \<Rightarrow> r)"

function lex :: "jsstring \<Rightarrow> token list result" where
  "lex [] = Returns []"
| "lex (c # cs) =
     (if c = 0x09 \<or> c = 0x0A \<or> c = 0x0D \<or> c = 0x20 then lex cs
      else if c = 0x5B then add_token TLBracket (lex cs)
      else if c = 0x5D then add_token TRBracket (lex cs)
      else if c = 0x7B then add_token TLBrace (lex cs)
      else if c = 0x7D then add_token TRBrace (lex cs)
      else if c = 0x3A then add_token TColon (lex cs)
      else if c = 0x2C then add_token TComma (lex cs)
      else if c = 0x22 then
        (case lex_string cs of
           Returns (s, rest) \<Rightarrow> add_token (TString s) (lex rest)
         | Throws e \<Rightarrow> Throws e
         | Outside_model \<Rightarrow> Outside_model)
      else if c = 0x2D \<or> is_digit c then
        (case lex_number (c # cs) of
           Returns (n, rest) \<Rightarrow> add_token (TNumber n) (lex rest)
         | Throws e \<Rightarrow> Throws e
         | Outside_model \<Rightarrow> Outside_model)
      else if c = 0x74 \<and> take 3 cs = str ''rue'' then add_token TTrue (lex (drop 3 cs))
      else if c = 0x66 \<and> take 4 cs = str ''alse'' then add_token TFalse (lex (drop 4 cs))
      else if c = 0x6E \<and> take 3 cs = str ''ull'' then add_token TNull (lex (drop 3 cs))
      else Throws SyntaxError)"
  by pat_completeness auto
termination
proof -
  have string_shorter: "length rest < Suc (length cs)"
    if "lex_string cs = Returns (s, rest)" for cs s rest
    using that
  proof (induction cs arbitrary: s rest rule: lex_string.induct)
    case 1
    then show ?case by simp
  next
    case (2 c cs)
    show ?case
      using "2.prems" "2.IH"
      by (fastforce simp: add_unit_def split: if_splits list.splits option.splits result.splits)
  qed
  have number_shorter: "length rest < Suc (length cs)"
    if "lex_number (c # cs) = Returns (n, rest)" for c cs n rest
    using that
    by (auto simp: lex_number_def lex_int_part_def Let_def less_Suc_eq_le
             intro: le_trans [OF length_dropWhile_le] le_SucI
             split: if_splits list.splits option.splits)
  show ?thesis
    by (relation "measure length") (auto dest: string_shorter number_shorter)
qed

text \<open>
  The second pass is a pushdown automaton over the tokens. A frame is a container under
  construction; \<open>expect\<close> is what the grammar allows next.
\<close>

datatype frame =
    InArray "jsval list"
  | InObject "(jsstring \<times> jsval) list"
  | InMember "(jsstring \<times> jsval) list" jsstring

datatype expect = Value | ValueOrEnd | KeyOrEnd | Key | Colon | CommaOrEnd | End jsval

definition is_index_like :: "jsstring \<Rightarrow> bool" where
  "is_index_like k \<longleftrightarrow> k \<noteq> [] \<and> list_all is_digit k"

text \<open>A repeated property name keeps its place and takes the later value.\<close>

fun put_member :: "jsstring \<Rightarrow> jsval \<Rightarrow> (jsstring \<times> jsval) list \<Rightarrow> (jsstring \<times> jsval) list" where
  "put_member k v [] = [(k, v)]"
| "put_member k v ((k', v') # ps) =
     (if k = k' then (k, v) # ps else (k', v') # put_member k v ps)"

fun complete :: "jsval \<Rightarrow> frame list \<Rightarrow> (expect \<times> frame list) result" where
  "complete v [] = Returns (End v, [])"
| "complete v (InArray xs # fs) = Returns (CommaOrEnd, InArray (xs @ [v]) # fs)"
| "complete v (InMember ps k # fs) =
     (if is_index_like k then Outside_model
      else Returns (CommaOrEnd, InObject (put_member k v ps) # fs))"
| "complete v (InObject ps # fs) = Throws SyntaxError"

fun value_token :: "token \<Rightarrow> frame list \<Rightarrow> (expect \<times> frame list) result" where
  "value_token TLBracket fs = Returns (ValueOrEnd, InArray [] # fs)"
| "value_token TLBrace fs = Returns (KeyOrEnd, InObject [] # fs)"
| "value_token (TString s) fs = complete (JStr s) fs"
| "value_token (TNumber n) fs = complete (JNum n) fs"
| "value_token TTrue fs = complete (JBool True) fs"
| "value_token TFalse fs = complete (JBool False) fs"
| "value_token TNull fs = complete JNull fs"
| "value_token _ fs = Throws SyntaxError"

fun close_token :: "token \<Rightarrow> frame list \<Rightarrow> (expect \<times> frame list) result" where
  "close_token TRBracket (InArray xs # fs) = complete (JArr xs) fs"
| "close_token TRBrace (InObject ps # fs) = complete (JObj ps) fs"
| "close_token _ _ = Throws SyntaxError"

fun key_token :: "token \<Rightarrow> frame list \<Rightarrow> (expect \<times> frame list) result" where
  "key_token (TString k) (InObject ps # fs) = Returns (Colon, InMember ps k # fs)"
| "key_token _ _ = Throws SyntaxError"

fun step :: "token \<Rightarrow> expect \<Rightarrow> frame list \<Rightarrow> (expect \<times> frame list) result" where
  "step t Value fs = value_token t fs"
| "step t ValueOrEnd fs = (if t = TRBracket then close_token t fs else value_token t fs)"
| "step t KeyOrEnd fs = (if t = TRBrace then close_token t fs else key_token t fs)"
| "step t Key fs = key_token t fs"
| "step t Colon fs = (if t = TColon then Returns (Value, fs) else Throws SyntaxError)"
| "step t CommaOrEnd fs =
     (if t = TComma then
        (case fs of
           InArray xs # _ \<Rightarrow> Returns (Value, fs)
         | InObject ps # _ \<Rightarrow> Returns (Key, fs)
         | _ \<Rightarrow> Throws SyntaxError)
      else close_token t fs)"
| "step t (End v) fs = Throws SyntaxError"

fun run :: "token list \<Rightarrow> expect \<Rightarrow> frame list \<Rightarrow> jsval result" where
  "run [] e fs = (case e of End v \<Rightarrow> Returns v | _ \<Rightarrow> Throws SyntaxError)"
| "run (t # ts) e fs =
     (case step t e fs of
        Returns (e', fs') \<Rightarrow> run ts e' fs'
      | Throws e \<Rightarrow> Throws e
      | Outside_model \<Rightarrow> Outside_model)"

definition JSON_parse :: "jsstring \<Rightarrow> jsval result" where
  "JSON_parse s =
     (case lex s of
        Returns ts \<Rightarrow> run ts Value []
      | Throws e \<Rightarrow> Throws e
      | Outside_model \<Rightarrow> Outside_model)"


section \<open>The message cache screen\<close>

text \<open>
  \<^verbatim>\<open>src/app/(tabs)/index.tsx\<close>. The world is the React state of \<^verbatim>\<open>MessageCacheApp\<close>
  (\<open>messages\<close>, \<open>newMessage\<close>, \<open>loading\<close>) together with what the component acts on:
  the contents of AsyncStorage, the calls made to \<^verbatim>\<open>AsyncStorage.setItem\<close>, the alerts
  shown and the errors written with \<^verbatim>\<open>console.error\<close>. An \<^verbatim>\<open>async\<close> function takes the
  world and gives back how its promise settles and the world it leaves.
\<close>

definition MESSAGES_STORAGE_KEY :: jsstring where
  "MESSAGES_STORAGE_KEY = str ''cached_messages''"

definition MAX_MESSAGES :: nat where
  "MAX_MESSAGES = 5"

record world =
  messages :: jsval
  newMessage :: jsstring
  loading :: bool
  storage :: "jsstring \<rightharpoonup> jsstring"
  setItem_calls :: "(jsstring \<times> jsstring) list"
  alerts :: "(jsstring \<times> jsstring) list"
  console_errors :: "(jsstring \<times> js_error) list"

text \<open>The state of the component when it mounts, over a given content of the store.\<close>

definition initial_world :: "(jsstring \<rightharpoonup> jsstring) \<Rightarrow> world" where
  "initial_world stored =
     \<lparr>messages = JArr [], newMessage = [], loading = True, storage = stored,
      setItem_calls = [], alerts = [], console_errors = []\<rparr>"

text \<open>
  Modelled from the spec: the type \<^verbatim>\<open>Message\<close> of \<^verbatim>\<open>@/types/message\<close>, an object with the
  fields \<^verbatim>\<open>id\<close> (string), \<^verbatim>\<open>text\<close> (string) and \<^verbatim>\<open>timestamp\<close> (number), in the order in
  which \<^verbatim>\<open>addMessage\<close> writes them. \<^verbatim>\<open>MessageCache\<close> is an array of them.
\<close>

definition Message :: "jsstring \<Rightarrow> jsstring \<Rightarrow> int \<Rightarrow> jsval" where
  "Message i t n = JObj [(str ''id'', JStr i), (str ''text'', JStr t), (str ''timestamp'', JNum n)]"

definition MessageCache :: "(jsstring \<times> jsstring \<times> int) list \<Rightarrow> jsval" where
  "MessageCache ms = JArr (map (\<lambda>(i, t, n). Message i t n) ms)"

text \<open>
  Modelled from the spec: the external key-value store, \<^verbatim>\<open>get(key)\<close> giving the stored
  string or null and \<^verbatim>\<open>set(key, value)\<close>, each of which may fail with a storage
  error. Whether a call fails is an input, \<open>fault\<close>; a failed write stores nothing.
\<close>

definition AsyncStorage_getItem ::
  "js_error option \<Rightarrow> jsstring \<Rightarrow> world \<Rightarrow> jsstring option result \<times> world" where
  "AsyncStorage_getItem fault key w =
     (case fault of Some e \<Rightarrow> (Throws e, w) | None \<Rightarrow> (Returns (storage w key), w))"

definition AsyncStorage_setItem ::
  "js_error option \<Rightarrow> jsstring \<Rightarrow> jsstring \<Rightarrow> world \<Rightarrow> unit result \<times> world" where
  "AsyncStorage_setItem fault key val w =
     (let w' = w\<lparr>setItem_calls := setItem_calls w @ [(key, val)]\<rparr>
      in case fault of
           Some e \<Rightarrow> (Throws e, w')
         | None \<Rightarrow> (Returns (), w'\<lparr>storage := (storage w)(key \<mapsto> val)\<rparr>))"

definition console_error :: "jsstring \<Rightarrow> js_error \<Rightarrow> world \<Rightarrow> world" where
  "console_error label e w = w\<lparr>console_errors := console_errors w @ [(label, e)]\<rparr>"

definition Alert_alert :: "jsstring \<Rightarrow> jsstring \<Rightarrow> world \<Rightarrow> world" where
  "Alert_alert title message w = w\<lparr>alerts := alerts w @ [(title, message)]\<rparr>"

subsection \<open>loadMessagesFromStorage\<close>

text \<open>The \<^verbatim>\<open>try\<close> block: a string is truthy when it is neither null nor empty.\<close>

definition load_try :: "js_error option \<Rightarrow> world \<Rightarrow> unit result \<times> world" where
  "load_try fault w =
     (case AsyncStorage_getItem fault MESSAGES_STORAGE_KEY w of
        (Throws e, w1) \<Rightarrow> (Throws e, w1)
      | (Outside_model, w1) \<Rightarrow> (Outside_model, w1)
      | (Returns storedMessages, w1) \<Rightarrow>
          (case storedMessages of
             None \<Rightarrow> (Returns (), w1)
           | Some s \<Rightarrow>
               if s = [] then (Returns (), w1)
               else
                 (case JSON_parse s of
                    Throws e \<Rightarrow> (Throws e, w1)
                  | Outside_model \<Rightarrow> (Outside_model, w1)
                  | Returns parsedMessages \<Rightarrow> (Returns (), w1\<lparr>messages := parsedMessages\<rparr>))))"

text \<open>The \<^verbatim>\<open>catch\<close> clause logs the error; the \<^verbatim>\<open>finally\<close> clause clears \<open>loading\<close>.\<close>

definition loadMessagesFromStorage :: "js_error option \<Rightarrow> world \<Rightarrow> unit result \<times> world" where
  "loadMessagesFromStorage fault w =
     (case load_try fault w of
        (Returns u, w1) \<Rightarrow> (Returns (), w1\<lparr>loading := False\<rparr>)
      | (Throws error, w1) \<Rightarrow>
          (Returns (), (console_error (str ''Error loading messages:'') error w1)\<lparr>loading := False\<rparr>)
      | (Outside_model, w1) \<Rightarrow> (Outside_model, w1))"

subsection \<open>saveMessagesToStorage\<close>

definition saveMessagesToStorage :: "js_error option \<Rightarrow> jsval \<Rightarrow> world \<Rightarrow> unit result \<times> world" where
  "saveMessagesToStorage fault messagesToSave w =
     (case AsyncStorage_setItem fault MESSAGES_STORAGE_KEY (JSON_stringify messagesToSave) w of
        (Throws error, w1) \<Rightarrow> (Returns (), console_error (str ''Error saving messages:'') error w1)
      | (r, w1) \<Rightarrow> (r, w1))"

subsection \<open>addMessage\<close>

text \<open>
  The spread \<^verbatim>\<open>...messages\<close> iterates its operand: an array gives its elements, a
  string its code points, and a value that is not iterable throws a TypeError.
\<close>

fun code_points :: "jsstring \<Rightarrow> jsstring list" where
  "code_points [] = []"
| "code_points [c] = [[c]]"
| "code_points (c # d # cs) =
     (if is_high_surrogate c \<and> is_low_surrogate d then [c, d] # code_points cs
      else [c] # code_points (d # cs))"

fun spread :: "jsval \<Rightarrow> jsval list result" where
  "spread (JArr xs) = Returns xs"
| "spread (JStr s) = Returns (map JStr (code_points s))"
| "spread _ = Throws TypeError"

text \<open>
  \<open>now_id\<close> and \<open>now_timestamp\<close> are the two readings of \<^verbatim>\<open>Date.now()\<close>, the first for
  \<^verbatim>\<open>id\<close> and the second for \<^verbatim>\<open>timestamp\<close>; \<open>fault\<close> is for the write of
  \<^verbatim>\<open>saveMessagesToStorage\<close>.
\<close>

definition addMessage :: "int \<Rightarrow> int \<Rightarrow> js_error option \<Rightarrow> world \<Rightarrow> unit result \<times> world" where
  "addMessage now_id now_timestamp fault w =
     (if trim (newMessage w) = [] then
        (Returns (), Alert_alert (str ''Error'') (str ''Please enter a message'') w)
      else
        let message = Message (Number_toString now_id) (trim (newMessage w)) now_timestamp
        in case spread (messages w) of
             Throws e \<Rightarrow> (Throws e, w)
           | Outside_model \<Rightarrow> (Outside_model, w)
           | Returns previous \<Rightarrow>
               let updatedMessages = JArr (take MAX_MESSAGES (message # previous))
               in saveMessagesToStorage fault updatedMessages
                    (w\<lparr>messages := updatedMessages, newMessage := []\<rparr>))"

subsection \<open>The user's action\<close>

text \<open>
  An insertion is what the user does: type a text into the input (\<^verbatim>\<open>onChangeText\<close> is
  \<^verbatim>\<open>setNewMessage\<close>) and press Send (\<^verbatim>\<open>onPress\<close> is \<^verbatim>\<open>addMessage\<close>). It comes with the
  readings of the clock and the fate of the write.
\<close>

record insertion =
  typed :: jsstring
  clock_id :: int
  clock_timestamp :: int
  write_fault :: "js_error option"

definition valid :: "insertion \<Rightarrow> bool" where
  "valid i \<longleftrightarrow> trim (typed i) \<noteq> []"

definition new_message :: "insertion \<Rightarrow> jsval" where
  "new_message i = Message (Number_toString (clock_id i)) (trim (typed i)) (clock_timestamp i)"

definition send :: "insertion \<Rightarrow> world \<Rightarrow> world" where
  "send i w = snd (addMessage (clock_id i) (clock_timestamp i) (write_fault i) (w\<lparr>newMessage := typed i\<rparr>))"

fun sends :: "insertion list \<Rightarrow> world \<Rightarrow> world" where
  "sends [] w = w"
| "sends (i # is) w = sends is (send i w)"

text \<open>Reading the cache: its elements, and the \<^verbatim>\<open>id\<close> of each.\<close>

fun property :: "jsstring \<Rightarrow> jsval \<Rightarrow> jsval option" where
  "property k (JObj ps) = map_of ps k"
| "property k _ = None"

fun elements :: "jsval \<Rightarrow> jsval list" where
  "elements (JArr xs) = xs"
| "elements _ = []"

definition cache_ids :: "world \<Rightarrow> jsval option list" where
  "cache_ids w = map (property (str ''id'')) (elements (messages w))"


text \<open>
  The readings of the clock behind the \<^verbatim>\<open>id\<close> fields of the cache that a sequence of
  insertions leaves: those of the last \<open>MAX_MESSAGES\<close> insertions whose text is not
  blank, newest first.
\<close>

definition retained_readings :: "insertion list \<Rightarrow> int list" where
  "retained_readings is = take MAX_MESSAGES (rev (map clock_id (filter valid is)))"

subsection \<open>Example inputs\<close>

text \<open>The user types \<open>s\<close> and presses Send at time \<open>t\<close>; the write succeeds.\<close>

definition typing :: "string \<Rightarrow> int \<Rightarrow> insertion" where
  "typing s t = \<lparr>typed = str s, clock_id = t, clock_timestamp = t, write_fault = None\<rparr>"

text \<open>Six insertions, three of them at the same reading of the clock.\<close>

definition six :: "insertion list" where
  "six = [typing ''Message 1'' 1000, typing ''Message 2'' 2000, typing ''Message 3'' 3000,
          typing ''Message 4'' 3000, typing ''Message 5'' 3000, typing ''Message 6'' 2500]"

text \<open>A world whose cache is full.\<close>

definition five_cached :: world where
  "five_cached = (initial_world Map.empty)
     \<lparr>messages := MessageCache [(str ''5'', str ''Message 5'', 5000), (str ''4'', str ''Message 4'', 4000),
        (str ''3'', str ''Message 3'', 3000), (str ''2'', str ''Message 2'', 2000),
        (str ''1'', str ''Message 1'', 1000)]\<rparr>"

text \<open>An insertion whose write to the store fails.\<close>

definition failing :: insertion where
  "failing = \<lparr>typed = str ''Hello'', clock_id = 1000, clock_timestamp = 1001, write_fault = Some StorageError\<rparr>"

text \<open>A stored string that holds seven messages.\<close>

definition seven_stored :: jsstring where
  "seven_stored = str (''[{\"id\":\"7\",\"text\":\"g\",\"timestamp\":7},{\"id\":\"6\",\"text\":\"f\",\"timestamp\":6},''
     @ ''{\"id\":\"5\",\"text\":\"e\",\"timestamp\":5},{\"id\":\"4\",\"text\":\"d\",\"timestamp\":4},''
     @ ''{\"id\":\"3\",\"text\":\"c\",\"timestamp\":3},{\"id\":\"2\",\"text\":\"b\",\"timestamp\":2},''
     @ ''{\"id\":\"1\",\"text\":\"a\",\"timestamp\":1}]'')"

text \<open>
  Seven insertions, the first and the last at the same reading of the clock; the first
  has left the cache when the last arrives.
\<close>

definition seven :: "insertion list" where
  "seven = [typing ''Message 1'' 1000, typing ''Message 2'' 2000, typing ''Message 3'' 3000,
            typing ''Message 4'' 4000, typing ''Message 5'' 5000, typing ''Message 6'' 6000,
            typing ''Message 7'' 1000]"

text \<open>
  A cache of two messages; the text of the second holds a quote, a backslash, a line
  feed, a letter outside ASCII, a surrogate pair and an unpaired surrogate.
\<close>

definition two_cached :: "(jsstring \<times> jsstring \<times> int) list" where
  "two_cached =
     [(str ''1'', str ''Test message'', 1642680000000),
      (str ''2'', [0x22, 0x5C, 0x0A, 0xE9, 0xD83D, 0xDE00, 0xD800], 1642680060000)]"

section \<open>The tokens of a value\<close>

text \<open>
  The tokens that \<^verbatim>\<open>JSON.stringify\<close> writes for a value, and the values for which
  \<^verbatim>\<open>JSON.parse\<close> is modelled: the numbers are within \<open>2^53\<close>, and the property names of
  an object are distinct and not made of digits.
\<close>

fun separated :: "token list list \<Rightarrow> token list" where
  "separated [] = []"
| "separated [x] = x"
| "separated (x # y # ys) = x @ TComma # separated (y # ys)"

fun tokens_of :: "jsval \<Rightarrow> token list" where
  "tokens_of JNull = [TNull]"
| "tokens_of (JBool b) = [if b then TTrue else TFalse]"
| "tokens_of (JNum n) = [TNumber n]"
| "tokens_of (JStr s) = [TString s]"
| "tokens_of (JArr xs) = TLBracket # separated (map tokens_of xs) @ [TRBracket]"
| "tokens_of (JObj ps) =
     TLBrace # separated (map (\<lambda>(k, v). TString k # TColon # tokens_of v) ps) @ [TRBrace]"

definition add_tokens :: "token list \<Rightarrow> token list result \<Rightarrow> token list result" where
  "add_tokens ts r = foldr add_token ts r"

definition continue :: "(expect \<times> frame list) result \<Rightarrow> token list \<Rightarrow> jsval result" where
  "continue r ts =
     (case r of
        Returns (e, fs) \<Rightarrow> run ts e fs
      | Throws x \<Rightarrow> Throws x
      | Outside_model \<Rightarrow> Outside_model)"

definition follows :: "jsstring \<Rightarrow> bool" where
  "follows rest \<longleftrightarrow>
     (case rest of [] \<Rightarrow> True | c # _ \<Rightarrow> \<not> is_digit c \<and> c \<noteq> 0x2E \<and> c \<noteq> 0x65 \<and> c \<noteq> 0x45)"

fun in_model :: "jsval \<Rightarrow> bool" where
  "in_model (JNum n) \<longleftrightarrow> \<bar>n\<bar> \<le> 2 ^ 53"
| "in_model (JArr xs) \<longleftrightarrow> list_all in_model xs"
| "in_model (JObj ps) \<longleftrightarrow>
     distinct (map fst ps) \<and> list_all (\<lambda>(k, v). \<not> is_index_like k \<and> in_model v) ps"
| "in_model _ \<longleftrightarrow> True"

section \<open>Properties of the cache\<close>

text \<open>Unfolding the definitions on concrete inputs.\<close>

lemmas evaluation = valid_def new_message_def typing_def Message_def Number_toString_def digits.simps
  digit_char_def trim_def is_white_space_def str_def

lemmas parsing = JSON_parse_def add_token_def add_unit_def lex_number_def lex_int_part_def is_digit_def
  starts_fraction_or_exponent_def decimal_value_def unescape_def hex4_def hex_value_def is_index_like_def
  str_def

subsection \<open>What one insertion and a sequence of insertions leave in memory\<close>

lemma saveMessagesToStorage_ok:
  "saveMessagesToStorage None ms w =
     (Returns (), w\<lparr>setItem_calls := setItem_calls w @ [(MESSAGES_STORAGE_KEY, JSON_stringify ms)],
                     storage := (storage w)(MESSAGES_STORAGE_KEY \<mapsto> JSON_stringify ms)\<rparr>)"
  by (simp add: saveMessagesToStorage_def AsyncStorage_setItem_def Let_def)

lemma saveMessagesToStorage_fails:
  "saveMessagesToStorage (Some e) ms w =
     (Returns (), w\<lparr>setItem_calls := setItem_calls w @ [(MESSAGES_STORAGE_KEY, JSON_stringify ms)],
                     console_errors := console_errors w @ [(str ''Error saving messages:'', e)]\<rparr>)"
  by (simp add: saveMessagesToStorage_def AsyncStorage_setItem_def Let_def console_error_def)

lemma messages_saveMessagesToStorage:
  "messages (snd (saveMessagesToStorage fault ms w)) = messages w"
  by (cases fault) (simp_all add: saveMessagesToStorage_ok saveMessagesToStorage_fails)

lemma addMessage_valid:
  assumes "messages w = JArr xs" and "trim (newMessage w) \<noteq> []"
  shows "addMessage now_id now_timestamp fault w =
           saveMessagesToStorage fault
             (JArr (take MAX_MESSAGES (Message (Number_toString now_id) (trim (newMessage w)) now_timestamp # xs)))
             (w\<lparr>messages := JArr (take MAX_MESSAGES
                     (Message (Number_toString now_id) (trim (newMessage w)) now_timestamp # xs)),
                newMessage := []\<rparr>)"
  using assms by (simp add: addMessage_def Let_def)

lemma send_valid:
  "messages w = JArr xs \<Longrightarrow> valid i \<Longrightarrow>
   messages (send i w) = JArr (take MAX_MESSAGES (new_message i # xs))"
  by (simp add: send_def addMessage_valid valid_def new_message_def messages_saveMessagesToStorage)

lemma send_invalid: "\<not> valid i \<Longrightarrow> messages (send i w) = messages w"
  by (simp add: send_def addMessage_def valid_def Alert_alert_def)

lemma take_append_take: "take n (ys @ take n xs) = take n (ys @ xs)"
  by (simp add: min_def)

lemma sends_messages:
  assumes "messages w = JArr xs"
  shows "messages (sends is w) =
           JArr (if filter valid is = [] then xs
                 else take MAX_MESSAGES (rev (map new_message (filter valid is)) @ xs))"
  using assms
proof (induction "is" arbitrary: w xs)
  case Nil
  then show ?case by simp
next
  case (Cons i "is")
  show ?case
  proof (cases "valid i")
    case True
    have "messages (send i w) = JArr (take MAX_MESSAGES (new_message i # xs))"
      using Cons.prems True by (rule send_valid)
    from Cons.IH [OF this] True show ?thesis
      using take_append_take [of MAX_MESSAGES "rev (map new_message (filter valid is))" "new_message i # xs"]
      by (simp add: MAX_MESSAGES_def)
  next
    case False
    have "messages (send i w) = JArr xs"
      using Cons.prems False by (simp add: send_invalid)
    from Cons.IH [OF this] False show ?thesis by simp
  qed
qed

lemma sends_from_empty:
  "messages (sends is (initial_world stored)) =
     JArr (take MAX_MESSAGES (rev (map new_message (filter valid is))))"
  using sends_messages [of "initial_world stored" "[]" "is"]
  by (simp add: initial_world_def)

subsection \<open>Length of the cache\<close>

text \<open>
  Claim C1. After any sequence of insertions into the empty cache of a freshly mounted
  screen, the cache is an array whose length is the smaller of \<open>MAX_MESSAGES = 5\<close> and
  the number of insertions whose text is not blank. One insertion of a text that is not
  blank into a cache of length \<open>n\<close> leaves a cache of length \<open>min 5 (n + 1)\<close>.
\<close>

theorem cache_length:
  "(\<exists>ys. messages (sends is (initial_world stored)) = JArr ys
          \<and> length ys = min MAX_MESSAGES (length (filter valid is)))
   \<and> (messages w = JArr xs \<longrightarrow> valid i \<longrightarrow>
        (\<exists>ys. messages (send i w) = JArr ys \<and> length ys = min MAX_MESSAGES (length xs + 1)))"
  by (simp add: sends_from_empty send_valid min.commute)

theorem cache_length_witness:
  "(\<exists>ys. messages (sends [typing ''Message 1'' 1000, typing ''  '' 1001, typing '' Message 2'' 1002]
                      (initial_world Map.empty)) = JArr ys \<and> length ys = 2)
   \<and> messages (initial_world Map.empty) = JArr [] \<and> valid (typing ''Message 1'' 1000)
   \<and> (\<exists>ys. messages (send (typing ''Message 1'' 1000) (initial_world Map.empty)) = JArr ys \<and> length ys = 1)"
proof -
  have a: "messages (initial_world Map.empty) = JArr []"
    by (simp add: initial_world_def)
  have b: "valid (typing ''Message 1'' 1000)"
    by (simp add: evaluation)
  have c: "min MAX_MESSAGES (length (filter valid
             [typing ''Message 1'' 1000, typing ''  '' 1001, typing '' Message 2'' 1002])) = 2"
    by (simp add: evaluation MAX_MESSAGES_def)
  have d: "min MAX_MESSAGES (length ([] :: jsval list) + 1) = 1"
    by (simp add: MAX_MESSAGES_def)
  note r = cache_length [of "[typing ''Message 1'' 1000, typing ''  '' 1001, typing '' Message 2'' 1002]"
        Map.empty "initial_world Map.empty" "[]" "typing ''Message 1'' 1000", unfolded c d]
  from r a b show ?thesis
    by blast
qed

subsection \<open>Order of the cache\<close>

text \<open>
  Claim C2. An insertion of a text that is not blank into a cache that is an array
  builds the new message and puts it at index 0, in front of the previous elements, and
  keeps the first \<open>MAX_MESSAGES\<close> elements. So the cache of a freshly mounted screen
  holds, after any sequence of such insertions, the last five messages in the reverse
  of the order in which they were inserted, whatever their timestamps are. After six
  insertions M1 to M6 it is M6, M5, M4, M3, M2, and M1 is not in it when M1 differs from
  the other five.
\<close>

theorem newest_first:
  "(messages w = JArr xs \<longrightarrow> valid i \<longrightarrow>
      messages (send i w) = JArr (take MAX_MESSAGES (new_message i # xs))
      \<and> elements (messages (send i w)) ! 0 = new_message i)
   \<and> (list_all valid is \<longrightarrow>
        messages (sends is (initial_world stored)) = JArr (take MAX_MESSAGES (rev (map new_message is))))
   \<and> (list_all valid [i1, i2, i3, i4, i5, i6] \<longrightarrow>
        messages (sends [i1, i2, i3, i4, i5, i6] (initial_world stored)) =
          JArr [new_message i6, new_message i5, new_message i4, new_message i3, new_message i2]
        \<and> (new_message i1 \<notin> set [new_message i2, new_message i3, new_message i4, new_message i5, new_message i6]
             \<longrightarrow> new_message i1 \<notin> set (elements (messages (sends [i1, i2, i3, i4, i5, i6] (initial_world stored))))))"
proof (intro conjI impI)
  assume "messages w = JArr xs" "valid i"
  then show "messages (send i w) = JArr (take MAX_MESSAGES (new_message i # xs))"
    by (rule send_valid)
  then show "elements (messages (send i w)) ! 0 = new_message i"
    by (simp add: MAX_MESSAGES_def)
next
  assume "list_all valid is"
  then have "filter valid is = is"
    by (simp add: list_all_iff)
  then show "messages (sends is (initial_world stored)) = JArr (take MAX_MESSAGES (rev (map new_message is)))"
    by (simp add: sends_from_empty)
next
  assume v: "list_all valid [i1, i2, i3, i4, i5, i6]"
  then have "filter valid [i1, i2, i3, i4, i5, i6] = [i1, i2, i3, i4, i5, i6]"
    by simp
  then show six: "messages (sends [i1, i2, i3, i4, i5, i6] (initial_world stored)) =
          JArr [new_message i6, new_message i5, new_message i4, new_message i3, new_message i2]"
    using sends_from_empty [of "[i1, i2, i3, i4, i5, i6]" stored] by (simp add: MAX_MESSAGES_def)
  assume "new_message i1 \<notin> set [new_message i2, new_message i3, new_message i4, new_message i5, new_message i6]"
  then show "new_message i1 \<notin> set (elements (messages (sends [i1, i2, i3, i4, i5, i6] (initial_world stored))))"
    unfolding six by auto
qed

theorem newest_first_witness:
  "list_all valid six
   \<and> messages (sends six (initial_world Map.empty)) =
       JArr [Message (str ''2500'') (str ''Message 6'') 2500, Message (str ''3000'') (str ''Message 5'') 3000,
             Message (str ''3000'') (str ''Message 4'') 3000, Message (str ''3000'') (str ''Message 3'') 3000,
             Message (str ''2000'') (str ''Message 2'') 2000]
   \<and> new_message (typing ''Message 1'' 1000) \<notin> set (elements (messages (sends six (initial_world Map.empty))))
   \<and> elements (messages (send (typing ''Message 6'' 2500) (initial_world Map.empty))) ! 0
       = Message (str ''2500'') (str ''Message 6'') 2500"
proof -
  have v: "list_all valid six"
    by (simp add: six_def evaluation)
  have d: "new_message (typing ''Message 1'' 1000) \<notin> set [new_message (typing ''Message 2'' 2000),
      new_message (typing ''Message 3'' 3000), new_message (typing ''Message 4'' 3000),
      new_message (typing ''Message 5'' 3000), new_message (typing ''Message 6'' 2500)]"
    by (simp add: evaluation)
  have m: "[new_message (typing ''Message 6'' 2500), new_message (typing ''Message 5'' 3000),
            new_message (typing ''Message 4'' 3000), new_message (typing ''Message 3'' 3000),
            new_message (typing ''Message 2'' 2000)] =
           [Message (str ''2500'') (str ''Message 6'') 2500, Message (str ''3000'') (str ''Message 5'') 3000,
             Message (str ''3000'') (str ''Message 4'') 3000, Message (str ''3000'') (str ''Message 3'') 3000,
             Message (str ''2000'') (str ''Message 2'') 2000]"
    by (simp add: evaluation)
  have e: "messages (initial_world Map.empty) = JArr []"
    by (simp add: initial_world_def)
  have f: "valid (typing ''Message 6'' 2500)"
    and g: "new_message (typing ''Message 6'' 2500) = Message (str ''2500'') (str ''Message 6'') 2500"
    by (simp_all add: evaluation)
  note r = newest_first [of "initial_world Map.empty" "[]" "typing ''Message 6'' 2500" six Map.empty
      "typing ''Message 1'' 1000" "typing ''Message 2'' 2000" "typing ''Message 3'' 3000"
      "typing ''Message 4'' 3000" "typing ''Message 5'' 3000" "typing ''Message 6'' 2500",
      folded six_def]
  from r v have b: "messages (sends six (initial_world Map.empty)) =
      JArr [new_message (typing ''Message 6'' 2500), new_message (typing ''Message 5'' 3000),
            new_message (typing ''Message 4'' 3000), new_message (typing ''Message 3'' 3000),
            new_message (typing ''Message 2'' 2000)]"
    by blast
  from r v d have c: "new_message (typing ''Message 1'' 1000)
      \<notin> set (elements (messages (sends six (initial_world Map.empty))))"
    by blast
  from r e f have h: "elements (messages (send (typing ''Message 6'' 2500) (initial_world Map.empty))) ! 0
      = new_message (typing ''Message 6'' 2500)"
    by blast
  from v b [unfolded m] c h [unfolded g] show ?thesis
    by blast
qed

subsection \<open>What an insertion keeps\<close>

text \<open>
  Claim C10. An insertion of a text that is not blank into a cache of length \<open>n\<close> keeps
  the first \<open>min n (MAX_MESSAGES - 1)\<close> previous elements as they are and in their
  order, one index further, behind the new message. What is dropped is the end of the
  previous sequence.
\<close>

theorem retained_messages_shift:
  assumes "messages w = JArr xs" and "valid i"
  shows "messages (send i w) = JArr (new_message i # take (MAX_MESSAGES - 1) xs)
         \<and> (\<forall>k < min (length xs) (MAX_MESSAGES - 1). elements (messages (send i w)) ! (k + 1) = xs ! k)
         \<and> length (elements (messages (send i w))) = 1 + min (length xs) (MAX_MESSAGES - 1)
         \<and> xs = tl (elements (messages (send i w))) @ drop (MAX_MESSAGES - 1) xs"
  using send_valid [OF assms] by (simp add: MAX_MESSAGES_def min.commute)

theorem retained_messages_shift_witness:
  "valid (typing ''Message 6'' 6000)
   \<and> messages (send (typing ''Message 6'' 6000) five_cached) =
       MessageCache [(str ''6000'', str ''Message 6'', 6000), (str ''5'', str ''Message 5'', 5000),
         (str ''4'', str ''Message 4'', 4000), (str ''3'', str ''Message 3'', 3000),
         (str ''2'', str ''Message 2'', 2000)]
   \<and> elements (messages (send (typing ''Message 6'' 6000) five_cached)) ! 4 = elements (messages five_cached) ! 3"
proof -
  have a: "messages five_cached = JArr [Message (str ''5'') (str ''Message 5'') 5000,
      Message (str ''4'') (str ''Message 4'') 4000, Message (str ''3'') (str ''Message 3'') 3000,
      Message (str ''2'') (str ''Message 2'') 2000, Message (str ''1'') (str ''Message 1'') 1000]"
    by (simp add: five_cached_def MessageCache_def)
  have b: "valid (typing ''Message 6'' 6000)"
    by (simp add: evaluation)
  have c: "new_message (typing ''Message 6'' 6000) = Message (str ''6000'') (str ''Message 6'') 6000"
    by (simp add: evaluation)
  note r = retained_messages_shift [OF a b]
  from r [THEN conjunct1] have "messages (send (typing ''Message 6'' 6000) five_cached) =
       MessageCache [(str ''6000'', str ''Message 6'', 6000), (str ''5'', str ''Message 5'', 5000),
         (str ''4'', str ''Message 4'', 4000), (str ''3'', str ''Message 3'', 3000),
         (str ''2'', str ''Message 2'', 2000)]"
    by (simp add: c MAX_MESSAGES_def MessageCache_def)
  moreover from r [THEN conjunct2, THEN conjunct1, rule_format, of 3]
  have "elements (messages (send (typing ''Message 6'' 6000) five_cached)) ! 4
      = elements (messages five_cached) ! 3"
    unfolding a by (simp add: MAX_MESSAGES_def)
  ultimately show ?thesis
    using b by simp
qed

subsection \<open>Blank input\<close>

text \<open>A text is empty once trimmed exactly when it is made of white space only.\<close>

lemma trim_blank: "trim s = [] \<longleftrightarrow> list_all is_white_space s"
proof
  assume "trim s = []"
  then have "\<forall>c \<in> set (dropWhile is_white_space s). is_white_space c"
    by (simp add: trim_def dropWhile_eq_Nil_conv)
  then have "dropWhile is_white_space s = []"
    using hd_dropWhile [of is_white_space s] hd_in_set [of "dropWhile is_white_space s"] by blast
  then show "list_all is_white_space s"
    by (simp add: dropWhile_eq_Nil_conv list_all_iff)
next
  assume "list_all is_white_space s"
  then have "dropWhile is_white_space s = []"
    by (simp add: dropWhile_eq_Nil_conv list_all_iff)
  then show "trim s = []"
    by (simp only: trim_def rev.simps dropWhile.simps)
qed

text \<open>
  Claim C4. When the text in the input is empty once trimmed, that is empty or made of
  white space only, \<^verbatim>\<open>addMessage\<close> shows the alert "Please enter a message" and does
  nothing else: the cache, the store and the list of calls to \<^verbatim>\<open>AsyncStorage.setItem\<close>
  are as they were, and so is the text in the input.
\<close>

theorem blank_text_is_rejected:
  assumes "trim text = []"
  shows "addMessage now_id now_timestamp fault (w\<lparr>newMessage := text\<rparr>) =
           (Returns (), w\<lparr>newMessage := text,
                          alerts := alerts w @ [(str ''Error'', str ''Please enter a message'')]\<rparr>)
         \<and> messages (snd (addMessage now_id now_timestamp fault (w\<lparr>newMessage := text\<rparr>))) = messages w
         \<and> storage (snd (addMessage now_id now_timestamp fault (w\<lparr>newMessage := text\<rparr>))) = storage w
         \<and> setItem_calls (snd (addMessage now_id now_timestamp fault (w\<lparr>newMessage := text\<rparr>))) = setItem_calls w"
  using assms by (simp add: addMessage_def Alert_alert_def)

theorem blank_text_is_rejected_witness:
  "trim [0x20, 0x09, 0x0A, 0xA0] = []
   \<and> addMessage 1000 1000 None ((initial_world Map.empty)\<lparr>newMessage := [0x20, 0x09, 0x0A, 0xA0]\<rparr>) =
       (Returns (), (initial_world Map.empty)\<lparr>newMessage := [0x20, 0x09, 0x0A, 0xA0],
                       alerts := [(str ''Error'', str ''Please enter a message'')]\<rparr>)"
proof -
  have a: "trim [0x20, 0x09, 0x0A, 0xA0] = []"
    by (simp add: trim_def is_white_space_def)
  from blank_text_is_rejected [OF a, of 1000 1000 None "initial_world Map.empty"] a show ?thesis
    by (simp add: initial_world_def)
qed

subsection \<open>A write that fails\<close>

text \<open>
  Claim C6 says that a failure of the write is surfaced to the caller of
  \<^verbatim>\<open>saveMessagesToStorage\<close>. It is not: the promise of \<^verbatim>\<open>saveMessagesToStorage\<close> is
  fulfilled although the write has failed.
\<close>

theorem write_failure_is_swallowed_counterexample:
  "fst (saveMessagesToStorage (Some StorageError) (JArr []) (initial_world Map.empty)) \<noteq> Throws StorageError"
  by (simp add: saveMessagesToStorage_fails)

text \<open>
  Claim C6, as amended. When the write fails, \<^verbatim>\<open>saveMessagesToStorage\<close> catches the
  failure and writes it to \<^verbatim>\<open>console.error\<close> under "Error saving messages:". Its promise
  is fulfilled, so its caller does not see the failure. It has called
  \<^verbatim>\<open>AsyncStorage.setItem\<close> once, with the key and the serialized cache, and does not
  call it again.
\<close>

theorem write_failure_is_logged:
  "saveMessagesToStorage (Some e) ms w =
     (Returns (),
      w\<lparr>setItem_calls := setItem_calls w @ [(MESSAGES_STORAGE_KEY, JSON_stringify ms)],
        console_errors := console_errors w @ [(str ''Error saving messages:'', e)]\<rparr>)"
  by (rule saveMessagesToStorage_fails)

text \<open>
  Claim C7. When the write fails after an insertion of a text that is not blank, the
  cache in memory holds the new message all the same and the store holds what it held
  before, so the two may differ; \<^verbatim>\<open>addMessage\<close> completes normally. They agree again after
  the next insertion whose write succeeds: the store then holds the serialized cache.
\<close>

theorem failed_write_keeps_memory:
  assumes "messages w = JArr xs" and "valid i"
  shows "(write_fault i = Some e \<longrightarrow>
            messages (send i w) = JArr (take MAX_MESSAGES (new_message i # xs))
            \<and> storage (send i w) = storage w
            \<and> fst (addMessage (clock_id i) (clock_timestamp i) (write_fault i) (w\<lparr>newMessage := typed i\<rparr>))
                = Returns ())
         \<and> (write_fault i = None \<longrightarrow>
            storage (send i w) MESSAGES_STORAGE_KEY = Some (JSON_stringify (messages (send i w))))"
  using assms
  by (simp add: send_def addMessage_valid valid_def new_message_def saveMessagesToStorage_fails
                saveMessagesToStorage_ok)

theorem failed_write_keeps_memory_witness:
  "messages (send (typing ''Message 1'' 999) (initial_world Map.empty)) = JArr [Message (str ''999'') (str ''Message 1'') 999]
   \<and> valid failing \<and> write_fault failing = Some StorageError
   \<and> messages (send failing (send (typing ''Message 1'' 999) (initial_world Map.empty))) =
       JArr [Message (str ''1000'') (str ''Hello'') 1001, Message (str ''999'') (str ''Message 1'') 999]
   \<and> storage (send failing (send (typing ''Message 1'' 999) (initial_world Map.empty))) MESSAGES_STORAGE_KEY =
       Some (JSON_stringify (JArr [Message (str ''999'') (str ''Message 1'') 999]))
   \<and> JSON_stringify (JArr [Message (str ''999'') (str ''Message 1'') 999])
       \<noteq> JSON_stringify (messages (send failing (send (typing ''Message 1'' 999) (initial_world Map.empty))))"
proof -
  let ?w0 = "initial_world Map.empty"
  let ?w1 = "send (typing ''Message 1'' 999) ?w0"
  have v1: "valid (typing ''Message 1'' 999)"
    and n1: "new_message (typing ''Message 1'' 999) = Message (str ''999'') (str ''Message 1'') 999"
    and f1: "write_fault (typing ''Message 1'' 999) = None"
    by (simp_all add: evaluation)
  have e0: "messages ?w0 = JArr []"
    by (simp add: initial_world_def)
  have a: "messages ?w1 = JArr [Message (str ''999'') (str ''Message 1'') 999]"
    using send_valid [OF e0 v1] by (simp add: n1 MAX_MESSAGES_def)
  have s1: "storage ?w1 MESSAGES_STORAGE_KEY = Some (JSON_stringify (JArr [Message (str ''999'') (str ''Message 1'') 999]))"
    using failed_write_keeps_memory [OF e0 v1, of StorageError] f1 a by simp
  have b: "valid failing"
    by (simp add: failing_def evaluation)
  have c: "write_fault failing = Some StorageError"
    by (simp add: failing_def)
  have d: "new_message failing = Message (str ''1000'') (str ''Hello'') 1001"
    by (simp add: failing_def evaluation)
  from failed_write_keeps_memory [OF a b, of StorageError] c
  have m: "messages (send failing ?w1) =
       JArr [Message (str ''1000'') (str ''Hello'') 1001, Message (str ''999'') (str ''Message 1'') 999]"
    and s: "storage (send failing ?w1) = storage ?w1"
    by (simp_all add: d MAX_MESSAGES_def)
  have ne: "JSON_stringify (JArr [Message (str ''999'') (str ''Message 1'') 999])
       \<noteq> JSON_stringify (JArr [Message (str ''1000'') (str ''Hello'') 1001, Message (str ''999'') (str ''Message 1'') 999])"
    by (simp add: Message_def QuoteJSONString_def quote_unit_def is_high_surrogate_def is_low_surrogate_def
          Number_toString_def digits.simps digit_char_def str_def)
  from a b c m s s1 ne show ?thesis
    by simp
qed

subsection \<open>Loading\<close>

lemma load_try_cases:
  "load_try fault w =
     (case fault of
        Some e \<Rightarrow> (Throws e, w)
      | None \<Rightarrow>
          (case storage w MESSAGES_STORAGE_KEY of
             None \<Rightarrow> (Returns (), w)
           | Some s \<Rightarrow>
               if s = [] then (Returns (), w)
               else (case JSON_parse s of
                       Returns v \<Rightarrow> (Returns (), w\<lparr>messages := v\<rparr>)
                     | Throws e \<Rightarrow> (Throws e, w)
                     | Outside_model \<Rightarrow> (Outside_model, w))))"
  by (simp add: load_try_def AsyncStorage_getItem_def split: option.split result.split)

text \<open>
  Claim C3. \<^verbatim>\<open>loadMessagesFromStorage\<close> never rejects. On a freshly mounted screen, when
  the store holds nothing under "cached_messages", and when what it holds makes
  \<^verbatim>\<open>JSON.parse\<close> throw, the load completes normally and the cache is the empty array.
\<close>

theorem load_falls_back_to_empty:
  "(stored MESSAGES_STORAGE_KEY = None
      \<or> (stored MESSAGES_STORAGE_KEY = Some s \<and> JSON_parse s = Throws SyntaxError) \<longrightarrow>
      fst (loadMessagesFromStorage None (initial_world stored)) = Returns ()
      \<and> messages (snd (loadMessagesFromStorage None (initial_world stored))) = JArr []
      \<and> length (elements (messages (snd (loadMessagesFromStorage None (initial_world stored))))) = 0)
   \<and> fst (loadMessagesFromStorage fault w) \<noteq> Throws e"
  by (auto simp: loadMessagesFromStorage_def load_try_cases initial_world_def console_error_def
           split: option.split result.split)

theorem load_falls_back_to_empty_witness:
  "Map.empty MESSAGES_STORAGE_KEY = (None :: jsstring option)
   \<and> messages (snd (loadMessagesFromStorage None (initial_world Map.empty))) = JArr []
   \<and> JSON_parse (str ''invalid json data'') = Throws SyntaxError
   \<and> fst (loadMessagesFromStorage None
         (initial_world [MESSAGES_STORAGE_KEY \<mapsto> str ''invalid json data''])) = Returns ()
   \<and> messages (snd (loadMessagesFromStorage None
         (initial_world [MESSAGES_STORAGE_KEY \<mapsto> str ''invalid json data'']))) = JArr []"
proof -
  have a: "JSON_parse (str ''invalid json data'') = Throws SyntaxError"
    by (simp add: parsing)
  from load_falls_back_to_empty [of Map.empty "[]" None "initial_world Map.empty" SyntaxError]
  have "messages (snd (loadMessagesFromStorage None (initial_world Map.empty))) = JArr []"
    by simp
  moreover
  from load_falls_back_to_empty [of "[MESSAGES_STORAGE_KEY \<mapsto> str ''invalid json data'']"
      "str ''invalid json data''" None "initial_world Map.empty" SyntaxError] a
  have "fst (loadMessagesFromStorage None
         (initial_world [MESSAGES_STORAGE_KEY \<mapsto> str ''invalid json data''])) = Returns ()
   \<and> messages (snd (loadMessagesFromStorage None
         (initial_world [MESSAGES_STORAGE_KEY \<mapsto> str ''invalid json data'']))) = JArr []"
    by simp
  ultimately show ?thesis
    using a by simp
qed

text \<open>
  Claim C9. When the store holds a string that is not empty and \<^verbatim>\<open>JSON.parse\<close> returns a
  value for it, \<^verbatim>\<open>loadMessagesFromStorage\<close> makes that value the cache as it is: nothing
  is cut to \<open>MAX_MESSAGES\<close> elements and nothing checks that the value is an array of
  messages.
\<close>

theorem load_is_verbatim:
  assumes "storage w MESSAGES_STORAGE_KEY = Some s" and "s \<noteq> []" and "JSON_parse s = Returns v"
  shows "loadMessagesFromStorage None w = (Returns (), w\<lparr>messages := v, loading := False\<rparr>)"
  using assms by (simp add: loadMessagesFromStorage_def load_try_cases)

theorem load_is_verbatim_witness:
  "messages (snd (loadMessagesFromStorage None (initial_world [MESSAGES_STORAGE_KEY \<mapsto> seven_stored]))) =
     MessageCache [(str ''7'', str ''g'', 7), (str ''6'', str ''f'', 6), (str ''5'', str ''e'', 5),
       (str ''4'', str ''d'', 4), (str ''3'', str ''c'', 3), (str ''2'', str ''b'', 2), (str ''1'', str ''a'', 1)]
   \<and> length (elements (messages (snd (loadMessagesFromStorage None
        (initial_world [MESSAGES_STORAGE_KEY \<mapsto> seven_stored]))))) = 7
   \<and> length (elements (messages (send (typing ''h'' 8) (snd (loadMessagesFromStorage None
        (initial_world [MESSAGES_STORAGE_KEY \<mapsto> seven_stored])))))) = 5
   \<and> messages (snd (loadMessagesFromStorage None
        (initial_world [MESSAGES_STORAGE_KEY \<mapsto> str ''{\"count\": 3, \"on\" :true}'']))) =
      JObj [(str ''count'', JNum 3), (str ''on'', JBool True)]
   \<and> messages (snd (loadMessagesFromStorage None
        (initial_world [MESSAGES_STORAGE_KEY \<mapsto> str ''[1,\"x\",null]'']))) =
      JArr [JNum 1, JStr (str ''x''), JNull]"
proof -
  let ?loaded = "snd (loadMessagesFromStorage None (initial_world [MESSAGES_STORAGE_KEY \<mapsto> seven_stored]))"
  have p7: "JSON_parse seven_stored = Returns (MessageCache [(str ''7'', str ''g'', 7), (str ''6'', str ''f'', 6),
     (str ''5'', str ''e'', 5), (str ''4'', str ''d'', 4), (str ''3'', str ''c'', 3), (str ''2'', str ''b'', 2),
     (str ''1'', str ''a'', 1)])"
    by (simp add: seven_stored_def parsing MessageCache_def Message_def)
  have n7: "seven_stored \<noteq> []"
    by (simp add: seven_stored_def str_def)
  have po: "JSON_parse (str ''{\"count\": 3, \"on\" :true}'') = Returns (JObj [(str ''count'', JNum 3), (str ''on'', JBool True)])"
    by (simp add: parsing)
  have no: "str ''{\"count\": 3, \"on\" :true}'' \<noteq> []"
    by (simp add: str_def)
  have pa: "JSON_parse (str ''[1,\"x\",null]'') = Returns (JArr [JNum 1, JStr (str ''x''), JNull])"
    by (simp add: parsing)
  have na: "str ''[1,\"x\",null]'' \<noteq> []"
    by (simp add: str_def)
  have s: "storage (initial_world [MESSAGES_STORAGE_KEY \<mapsto> v]) MESSAGES_STORAGE_KEY = Some v" for v
    by (simp add: initial_world_def)
  have l7: "messages ?loaded =
      JArr [Message (str ''7'') (str ''g'') 7, Message (str ''6'') (str ''f'') 6, Message (str ''5'') (str ''e'') 5,
        Message (str ''4'') (str ''d'') 4, Message (str ''3'') (str ''c'') 3, Message (str ''2'') (str ''b'') 2,
        Message (str ''1'') (str ''a'') 1]"
    by (simp add: load_is_verbatim [OF s n7 p7] MessageCache_def)
  have v: "valid (typing ''h'' 8)"
    by (simp add: evaluation)
  have next_insert: "length (elements (messages (send (typing ''h'' 8) ?loaded))) = 5"
    using send_valid [OF l7 v] by (simp add: MAX_MESSAGES_def)
  from l7 next_insert show ?thesis
    by (simp add: load_is_verbatim [OF s no po] load_is_verbatim [OF s na pa] MessageCache_def)
qed

subsection \<open>Properties of the decimal numerals\<close>

lemma unat_digit_char: "d < 10 \<Longrightarrow> unat (digit_char d) = 48 + d"
  by (simp only: digit_char_def unat_of_nat) simp

lemma is_digit_unat: "is_digit c \<longleftrightarrow> 48 \<le> unat c \<and> unat c \<le> 57"
  by (simp add: is_digit_def word_le_nat_alt)

lemma is_digit_digit_char: "d < 10 \<Longrightarrow> is_digit (digit_char d)"
  by (simp add: is_digit_unat unat_digit_char)

lemma digits_not_Nil: "digits n \<noteq> []"
  by (subst digits.simps) simp

lemma digits_are_digits: "c \<in> set (digits n) \<Longrightarrow> is_digit c"
proof (induction n arbitrary: c rule: digits.induct)
  case (1 n)
  show ?case
  proof (cases "n < 10")
    case True
    with "1.prems" show ?thesis
      by (subst (asm) digits.simps) (simp add: is_digit_digit_char)
  next
    case False
    with "1.prems" "1.IH" show ?thesis
      by (subst (asm) digits.simps) (auto simp: is_digit_digit_char)
  qed
qed

lemma decimal_value_snoc: "decimal_value (ds @ [c]) = 10 * decimal_value ds + (unat c - 48)"
  by (simp add: decimal_value_def)

lemma decimal_value_digits: "decimal_value (digits n) = n"
proof (induction n rule: digits.induct)
  case (1 n)
  show ?case
  proof (cases "n < 10")
    case True
    then show ?thesis
      by (subst digits.simps) (simp add: decimal_value_def unat_digit_char)
  next
    case False
    with "1.IH" show ?thesis
      by (subst digits.simps) (simp add: decimal_value_snoc unat_digit_char)
  qed
qed

lemma hd_digits_zero: "hd (digits n) = 0x30 \<longleftrightarrow> n = 0"
proof (induction n rule: digits.induct)
  case (1 n)
  show ?case
  proof (cases "n < 10")
    case True
    then show ?thesis
      by (subst digits.simps) (simp add: word_unat_eq_iff unat_digit_char)
  next
    case False
    with "1.IH" show ?thesis
      by (subst digits.simps) (simp add: digits_not_Nil)
  qed
qed

lemma digits_zero: "digits 0 = [0x30]"
  by (simp add: digits.simps digit_char_def)

lemma hd_digits_is_digit: "is_digit (hd (digits n))"
  by (rule digits_are_digits [of _ n]) (simp add: digits_not_Nil)

lemma digits_inj: "digits a = digits b \<Longrightarrow> a = b"
  by (metis decimal_value_digits)

lemma hd_digits_not_minus: "hd (digits m) \<noteq> 0x2D"
  using hd_digits_is_digit [of m] by (auto simp: is_digit_def)

lemma Number_toString_inj: "Number_toString a = Number_toString b \<Longrightarrow> a = b"
proof -
  assume eq: "Number_toString a = Number_toString b"
  have "hd (Number_toString n) = 0x2D \<longleftrightarrow> n < 0" for n
    by (simp add: Number_toString_def hd_digits_not_minus)
  with eq have sign: "a < 0 \<longleftrightarrow> b < 0"
    by metis
  show ?thesis
  proof (cases "a < 0")
    case True
    with sign eq have "digits (nat (- a)) = digits (nat (- b))"
      by (simp add: Number_toString_def)
    then have "nat (- a) = nat (- b)"
      by (rule digits_inj)
    with True sign show ?thesis by simp
  next
    case False
    with sign eq have "digits (nat a) = digits (nat b)"
      by (simp add: Number_toString_def)
    then have "nat a = nat b"
      by (rule digits_inj)
    with False sign show ?thesis by simp
  qed
qed

subsection \<open>Identifiers\<close>

lemma property_id_new_message:
  "property (str ''id'') (new_message i) = Some (JStr (Number_toString (clock_id i)))"
  by (simp add: new_message_def Message_def)

lemma cache_ids_sends:
  "cache_ids (sends is (initial_world stored)) =
     map (\<lambda>t. Some (JStr (Number_toString t))) (retained_readings is)"
  by (simp add: cache_ids_def sends_from_empty retained_readings_def take_map rev_map
                property_id_new_message comp_def)

text \<open>
  Claim C8 says that the \<^verbatim>\<open>id\<close> fields of the messages of a cache reached by
  insertions of texts that are not blank are pairwise distinct. They need not be: the
  \<^verbatim>\<open>id\<close> is the reading of the clock, and after two insertions at the same reading into
  the empty cache both messages are in the cache with the same \<^verbatim>\<open>id\<close>.
\<close>

theorem ids_repeat_counterexample:
  "list_all valid [typing ''first'' 1000, typing ''second'' 1000]
   \<and> \<not> distinct (cache_ids (sends [typing ''first'' 1000, typing ''second'' 1000] (initial_world Map.empty)))"
proof -
  have v: "list_all valid [typing ''first'' 1000, typing ''second'' 1000]"
    by (simp add: evaluation)
  then have f: "filter valid [typing ''first'' 1000, typing ''second'' 1000]
      = [typing ''first'' 1000, typing ''second'' 1000]"
    by simp
  have "cache_ids (sends [typing ''first'' 1000, typing ''second'' 1000] (initial_world Map.empty))
      = [Some (JStr (Number_toString 1000)), Some (JStr (Number_toString 1000))]"
    unfolding cache_ids_def sends_from_empty f
    by (simp add: MAX_MESSAGES_def property_id_new_message typing_def)
  with v show ?thesis
    by simp
qed

text \<open>
  Claim C8, as amended. In the cache that a sequence of insertions leaves on a freshly
  mounted screen, the \<^verbatim>\<open>id\<close> fields are the decimal numerals of the readings of the clock
  taken for the \<^verbatim>\<open>id\<close> of the messages that are still in the cache, those of the last
  five insertions whose text is not blank. They are pairwise distinct if and only if
  these readings are pairwise distinct.
\<close>

theorem ids_distinct_iff_retained_readings_distinct:
  "cache_ids (sends is (initial_world stored)) =
     map (\<lambda>t. Some (JStr (Number_toString t))) (retained_readings is)
   \<and> (distinct (cache_ids (sends is (initial_world stored))) \<longleftrightarrow> distinct (retained_readings is))"
proof -
  have "inj_on (\<lambda>t. Some (JStr (Number_toString t))) A" for A
    by (auto intro!: inj_onI dest: Number_toString_inj)
  then show ?thesis
    by (simp add: cache_ids_sends distinct_map)
qed

theorem ids_distinct_iff_retained_readings_distinct_witness:
  "list_all valid seven
   \<and> \<not> distinct (map clock_id (filter valid seven))
   \<and> retained_readings seven = [1000, 6000, 5000, 4000, 3000]
   \<and> cache_ids (sends seven (initial_world Map.empty)) =
       [Some (JStr (str ''1000'')), Some (JStr (str ''6000'')), Some (JStr (str ''5000'')),
        Some (JStr (str ''4000'')), Some (JStr (str ''3000''))]
   \<and> distinct (cache_ids (sends seven (initial_world Map.empty)))
   \<and> retained_readings [typing ''first'' 1000, typing ''second'' 1000] = [1000, 1000]
   \<and> \<not> distinct (cache_ids (sends [typing ''first'' 1000, typing ''second'' 1000] (initial_world Map.empty)))"
proof -
  have v: "list_all valid seven"
    by (simp add: seven_def evaluation)
  then have f: "filter valid seven = seven"
    by (simp add: list_all_iff)
  have n: "\<not> distinct (map clock_id (filter valid seven))"
    unfolding f by (simp add: seven_def typing_def)
  have r: "retained_readings seven = [1000, 6000, 5000, 4000, 3000]"
    unfolding retained_readings_def f by (simp add: seven_def typing_def MAX_MESSAGES_def)
  have numerals: "map (\<lambda>t. Some (JStr (Number_toString t))) [1000, 6000, 5000, 4000, 3000] =
       [Some (JStr (str ''1000'')), Some (JStr (str ''6000'')), Some (JStr (str ''5000'')),
        Some (JStr (str ''4000'')), Some (JStr (str ''3000''))]"
    by (simp add: evaluation)
  have v2: "filter valid [typing ''first'' 1000, typing ''second'' 1000]
      = [typing ''first'' 1000, typing ''second'' 1000]"
    by (simp add: evaluation)
  have r2: "retained_readings [typing ''first'' 1000, typing ''second'' 1000] = [1000, 1000]"
    unfolding retained_readings_def v2 by (simp add: typing_def MAX_MESSAGES_def)
  note seven_case = ids_distinct_iff_retained_readings_distinct [of seven Map.empty, unfolded r numerals]
  note two_case = ids_distinct_iff_retained_readings_distinct
      [of "[typing ''first'' 1000, typing ''second'' 1000]" Map.empty, unfolded r2]
  from seven_case have c: "cache_ids (sends seven (initial_world Map.empty)) =
       [Some (JStr (str ''1000'')), Some (JStr (str ''6000'')), Some (JStr (str ''5000'')),
        Some (JStr (str ''4000'')), Some (JStr (str ''3000''))]"
    by (rule conjunct1)
  from seven_case [THEN conjunct2] have d: "distinct (cache_ids (sends seven (initial_world Map.empty)))"
    by simp
  from two_case [THEN conjunct2] have e: "\<not> distinct (cache_ids (sends [typing ''first'' 1000, typing ''second'' 1000]
      (initial_world Map.empty)))"
    by simp
  from v n r c d r2 e show ?thesis
    by blast
qed

section \<open>Serialization\<close>

subsection \<open>String literals\<close>

lemma unat_hex_char: "d < 16 \<Longrightarrow> unat (hex_char d) = (if d < 10 then 48 + d else 87 + d)"
  by (simp only: hex_char_def unat_of_nat) simp

lemma hex_value_hex_char: "d < 16 \<Longrightarrow> hex_value (hex_char d) = Some d"
  by (simp add: hex_value_def word_le_nat_alt unat_hex_char)

lemma hex_digits_sum:
  "4096 * (n div 4096) + 256 * (n div 256 mod 16) + 16 * (n div 16 mod 16) + n mod 16 = (n::nat)"
proof -
  have a: "n = 16 * (n div 16) + n mod 16"
    by simp
  have b: "n div 16 = 16 * (n div 256) + n div 16 mod 16"
    using div_mult_mod_eq [of "n div 16" 16] by (simp add: div_mult2_eq [symmetric])
  have c: "n div 256 = 16 * (n div 4096) + n div 256 mod 16"
    using div_mult_mod_eq [of "n div 256" 16] by (simp add: div_mult2_eq [symmetric])
  from a b c show ?thesis
    by linarith
qed

lemma hex4_UnicodeEscape:
  "hex4 (hex_char (unat c div 4096)) (hex_char (unat c div 256 mod 16))
        (hex_char (unat c div 16 mod 16)) (hex_char (unat c mod 16)) = Some c"
proof -
  have "unat c < 65536"
    using unsigned_less [of c, where 'a = nat] by simp
  then have "unat c div 4096 < 16"
    by simp
  then show ?thesis
    by (simp add: hex4_def hex_value_hex_char hex_digits_sum)
qed

lemma lex_string_plain:
  "c \<noteq> 0x22 \<Longrightarrow> c \<noteq> 0x5C \<Longrightarrow> \<not> c < 0x20 \<Longrightarrow> lex_string (c # tail) = add_unit c (lex_string tail)"
  by simp

lemma lex_string_escape:
  "e \<noteq> 0x75 \<Longrightarrow> lex_string (0x5C # e # tail) =
     (case unescape e of None \<Rightarrow> Throws SyntaxError | Some u \<Rightarrow> add_unit u (lex_string tail))"
  by simp

lemma lex_string_UnicodeEscape: "lex_string (UnicodeEscape c @ tail) = add_unit c (lex_string tail)"
  by (simp add: UnicodeEscape_def hex4_UnicodeEscape Let_def)

lemma lex_string_quote_unit: "lex_string (quote_unit c @ tail) = add_unit c (lex_string tail)"
  by (simp add: quote_unit_def lex_string_escape lex_string_UnicodeEscape lex_string_plain unescape_def
           del: lex_string.simps)


lemma high_surrogate_plain: "is_high_surrogate c \<Longrightarrow> c \<noteq> 0x22 \<and> c \<noteq> 0x5C \<and> \<not> c < 0x20"
  by (auto simp: is_high_surrogate_def word_le_nat_alt word_less_nat_alt)

lemma low_surrogate_plain: "is_low_surrogate c \<Longrightarrow> c \<noteq> 0x22 \<and> c \<noteq> 0x5C \<and> \<not> c < 0x20"
  by (auto simp: is_low_surrogate_def word_le_nat_alt word_less_nat_alt)

lemma lex_string_quote_units: "lex_string (quote_units s @ 0x22 # rest) = Returns (s, rest)"
proof (induction s rule: quote_units.induct)
  case 1
  show ?case by simp
next
  case (2 c)
  have "lex_string (0x22 # rest) = Returns ([], rest)"
    by simp
  then show ?case
    by (simp add: lex_string_quote_unit add_unit_def del: lex_string.simps)
next
  case (3 c d cs)
  show ?case
  proof (cases "is_high_surrogate c \<and> is_low_surrogate d")
    case True
    then have "lex_string (c # d # quote_units cs @ 0x22 # rest)
        = add_unit c (add_unit d (lex_string (quote_units cs @ 0x22 # rest)))"
      using high_surrogate_plain [of c] low_surrogate_plain [of d]
      by (simp add: lex_string_plain del: lex_string.simps)
    with True "3.IH"(1) show ?thesis
      by (simp add: add_unit_def del: lex_string.simps)
  next
    case False
    then have "quote_units (c # d # cs) = quote_unit c @ quote_units (d # cs)"
      by auto
    with False "3.IH"(2) show ?thesis
      by (simp add: lex_string_quote_unit add_unit_def del: lex_string.simps quote_units.simps)
  qed
qed

lemma lex_QuoteJSONString: "lex (QuoteJSONString s @ rest) = add_token (TString s) (lex rest)"
  by (simp add: QuoteJSONString_def lex_string_quote_units del: lex_string.simps)


subsection \<open>Number literals\<close>

lemma takeWhile_digits:
  "follows rest \<Longrightarrow> takeWhile is_digit (digits n @ rest) = digits n"
  by (cases rest) (auto simp: follows_def takeWhile_append digits_are_digits)

lemma dropWhile_digits:
  "follows rest \<Longrightarrow> dropWhile is_digit (digits n @ rest) = rest"
  by (cases rest) (auto simp: follows_def dropWhile_append digits_are_digits)

lemma lex_int_part_digits:
  assumes "follows rest"
  shows "lex_int_part (digits n @ rest) = Some (digits n, rest)"
proof (cases "n = 0")
  case True
  then show ?thesis
    by (simp add: digits_zero lex_int_part_def)
next
  case False
  obtain c cs where d: "digits n = c # cs"
    using digits_not_Nil [of n] by (cases "digits n") auto
  from False have "c \<noteq> 0x30"
    using hd_digits_zero [of n] d by simp
  moreover have "is_digit c"
    using hd_digits_is_digit [of n] d by simp
  moreover have "takeWhile is_digit (cs @ rest) = cs" "dropWhile is_digit (cs @ rest) = rest"
    using takeWhile_digits [OF assms, of n] dropWhile_digits [OF assms, of n] d \<open>is_digit c\<close>
    by simp_all
  ultimately show ?thesis
    by (simp add: lex_int_part_def d)
qed

lemma not_starts_fraction_or_exponent: "follows rest \<Longrightarrow> \<not> starts_fraction_or_exponent rest"
  by (cases rest) (auto simp: follows_def starts_fraction_or_exponent_def)

lemma lex_number_Number_toString:
  assumes "\<bar>n\<bar> \<le> 2 ^ 53" and "follows rest"
  shows "lex_number (Number_toString n @ rest) = Returns (n, rest)"
proof (cases "n < 0")
  case True
  with assms(1) have "nat (- n) \<le> 2 ^ 53" "nat (- n) \<noteq> 0"
    by simp_all
  with True assms(2) show ?thesis
    by (simp add: lex_number_def Number_toString_def lex_int_part_digits
                  not_starts_fraction_or_exponent decimal_value_digits)
next
  case False
  with assms(1) have "nat n \<le> 2 ^ 53"
    by simp
  moreover obtain c cs where d: "digits (nat n) = c # cs"
    using digits_not_Nil [of "nat n"] by (cases "digits (nat n)") auto
  moreover have "c \<noteq> 0x2D"
    using hd_digits_not_minus [of "nat n"] d by simp
  moreover have "lex_int_part (c # cs @ rest) = Some (c # cs, rest)"
    using lex_int_part_digits [OF assms(2), of "nat n"] d by simp
  moreover have "decimal_value (c # cs) = nat n"
    using decimal_value_digits [of "nat n"] d by simp
  ultimately show ?thesis
    using False assms(2)
    by (simp add: lex_number_def Number_toString_def not_starts_fraction_or_exponent)
qed

lemma hd_Number_toString: "\<exists>c cs. Number_toString n = c # cs \<and> (c = 0x2D \<or> is_digit c)"
proof (cases "n < 0")
  case True
  then show ?thesis by (simp add: Number_toString_def)
next
  case False
  obtain c cs where d: "digits (nat n) = c # cs"
    using digits_not_Nil [of "nat n"] by (cases "digits (nat n)") auto
  with hd_digits_is_digit [of "nat n"] False show ?thesis
    by (simp add: Number_toString_def)
qed

lemma lex_number_start:
  "c = 0x2D \<or> is_digit c \<Longrightarrow> lex (c # cs) =
     (case lex_number (c # cs) of
        Returns (n, rest) \<Rightarrow> add_token (TNumber n) (lex rest)
      | Throws e \<Rightarrow> Throws e
      | Outside_model \<Rightarrow> Outside_model)"
  by (auto simp: is_digit_def word_le_nat_alt)

lemma lex_Number_toString:
  assumes "\<bar>n\<bar> \<le> 2 ^ 53" and "follows rest"
  shows "lex (Number_toString n @ rest) = add_token (TNumber n) (lex rest)"
proof -
  obtain c cs where d: "Number_toString n = c # cs" and c: "c = 0x2D \<or> is_digit c"
    using hd_Number_toString [of n] by blast
  have "lex_number ((c # cs) @ rest) = Returns (n, rest)"
    using lex_number_Number_toString [OF assms] d by simp
  then show ?thesis
    unfolding d using lex_number_start [OF c, of "cs @ rest"] by simp
qed

subsection \<open>From the text of a value to its tokens\<close>

lemma add_tokens_simps:
  "add_tokens [] r = r"
  "add_tokens (t # ts) r = add_token t (add_tokens ts r)"
  "add_tokens (ts @ us) r = add_tokens ts (add_tokens us r)"
  by (simp_all add: add_tokens_def)

lemma add_tokens_Returns: "add_tokens ts (Returns us) = Returns (ts @ us)"
  by (induction ts) (simp_all add: add_tokens_simps add_token_def)

lemma follows_punctuation: "follows (0x2C # rest)" "follows (0x5D # rest)" "follows (0x7D # rest)" "follows []"
  by (simp_all add: follows_def is_digit_def)

lemma lex_punctuation:
  "lex (0x5B # rest) = add_token TLBracket (lex rest)"
  "lex (0x5D # rest) = add_token TRBracket (lex rest)"
  "lex (0x7B # rest) = add_token TLBrace (lex rest)"
  "lex (0x7D # rest) = add_token TRBrace (lex rest)"
  "lex (0x3A # rest) = add_token TColon (lex rest)"
  "lex (0x2C # rest) = add_token TComma (lex rest)"
  by simp_all

lemma lex_keywords:
  "lex (str ''null'' @ rest) = add_token TNull (lex rest)"
  "lex (str ''true'' @ rest) = add_token TTrue (lex rest)"
  "lex (str ''false'' @ rest) = add_token TFalse (lex rest)"
  by (simp_all add: str_def is_digit_def)

lemma lex_join:
  assumes each: "\<And>x tail. x \<in> set xs \<Longrightarrow> follows tail \<Longrightarrow> lex (f x @ tail) = add_tokens (g x) (lex tail)"
    and "follows (c # rest)" and close: "lex (c # rest) = add_token t (lex rest)"
  shows "lex (join (map f xs) @ c # rest) = add_tokens (separated (map g xs) @ [t]) (lex rest)"
  using each
proof (induction xs rule: induct_list012)
  case 1
  show ?case
    by (simp add: close add_tokens_simps del: lex.simps)
next
  case (2 x)
  from "2.prems" [of x "c # rest"] assms(2) show ?case
    by (simp add: close add_tokens_simps del: lex.simps)
next
  case (3 x y zs)
  have "lex (join (map f (y # zs)) @ c # rest) = add_tokens (separated (map g (y # zs)) @ [t]) (lex rest)"
    by (rule "3.IH"(2)) (simp add: "3.prems")
  moreover have "lex (f x @ 0x2C # join (map f (y # zs)) @ c # rest)
      = add_tokens (g x) (lex (0x2C # join (map f (y # zs)) @ c # rest))"
    by (rule "3.prems") (simp_all add: follows_punctuation)
  ultimately show ?case
    by (simp add: add_tokens_simps lex_punctuation del: lex.simps)
qed

lemma lex_JSON_stringify:
  "in_model v \<Longrightarrow> follows rest \<Longrightarrow> lex (JSON_stringify v @ rest) = add_tokens (tokens_of v) (lex rest)"
proof (induction v arbitrary: rest)
  case JNull
  show ?case
    by (simp add: lex_keywords add_tokens_simps del: lex.simps)
next
  case (JBool b)
  show ?case
    by (simp add: lex_keywords add_tokens_simps del: lex.simps)
next
  case (JNum n)
  then show ?case
    by (simp add: lex_Number_toString add_tokens_simps del: lex.simps)
next
  case (JStr s)
  show ?case
    by (simp add: lex_QuoteJSONString add_tokens_simps del: lex.simps)
next
  case (JArr xs)
  have "lex (join (map JSON_stringify xs) @ 0x5D # rest)
      = add_tokens (separated (map tokens_of xs) @ [TRBracket]) (lex rest)"
  proof (rule lex_join)
    fix x tail
    assume "x \<in> set xs" "follows tail"
    with JArr.prems(1) show "lex (JSON_stringify x @ tail) = add_tokens (tokens_of x) (lex tail)"
      by (intro JArr.IH) (simp_all add: list_all_iff)
  qed (simp_all add: follows_punctuation lex_punctuation del: lex.simps)
  then show ?case
    by (simp add: add_tokens_simps lex_punctuation del: lex.simps)
next
  case (JObj ps)
  have "lex (join (map (\<lambda>(k, v). QuoteJSONString k @ 0x3A # JSON_stringify v) ps) @ 0x7D # rest)
      = add_tokens (separated (map (\<lambda>(k, v). TString k # TColon # tokens_of v) ps) @ [TRBrace]) (lex rest)"
  proof (rule lex_join)
    fix p tail
    assume p: "p \<in> set ps" and tail: "follows tail"
    obtain k v where kv: "p = (k, v)"
      by (cases p)
    from p kv JObj.prems(1) have "in_model v"
      by (auto simp: list_all_iff)
    with p kv tail have "lex (JSON_stringify v @ tail) = add_tokens (tokens_of v) (lex tail)"
      by (intro JObj.IH [of p v]) simp_all
    then show "lex ((case p of (k, v) \<Rightarrow> QuoteJSONString k @ 0x3A # JSON_stringify v) @ tail)
        = add_tokens (case p of (k, v) \<Rightarrow> TString k # TColon # tokens_of v) (lex tail)"
      by (simp add: kv lex_QuoteJSONString lex_punctuation add_tokens_simps del: lex.simps)
  qed (simp_all add: follows_punctuation lex_punctuation del: lex.simps)
  then show ?case
    by (simp add: add_tokens_simps lex_punctuation del: lex.simps)
qed

subsection \<open>From the tokens of a value to the value\<close>

lemma run_Cons: "run (t # ts) e fs = continue (step t e fs) ts"
  by (simp add: continue_def split: result.split)

lemma continue_Returns: "continue (Returns (e, fs)) ts = run ts e fs"
  by (simp add: continue_def)

lemma put_member_fresh: "k \<notin> fst ` set ps \<Longrightarrow> put_member k v ps = ps @ [(k, v)]"
  by (induction ps) auto

lemma run_elements:
  assumes each: "\<And>x ts e fs. x \<in> set xs \<Longrightarrow> e = Value \<or> e = ValueOrEnd \<Longrightarrow>
                   run (tokens_of x @ ts) e fs = continue (complete x fs) ts"
    and "e = ValueOrEnd \<or> (e = Value \<and> xs \<noteq> [])"
  shows "run (separated (map tokens_of xs) @ TRBracket # ts) e (InArray acc # fs)
           = continue (complete (JArr (acc @ xs)) fs) ts"
  using assms
proof (induction xs arbitrary: acc e rule: induct_list012)
  case 1
  then show ?case
    by (simp add: run_Cons del: run.simps)
next
  case (2 x)
  have "run (tokens_of x @ TRBracket # ts) e (InArray acc # fs)
      = continue (complete x (InArray acc # fs)) (TRBracket # ts)"
    using "2.prems"(2) by (intro "2.prems"(1)) auto
  then show ?case
    by (simp add: run_Cons continue_Returns del: run.simps)
next
  case (3 x y zs)
  have "run (tokens_of x @ TComma # separated (map tokens_of (y # zs)) @ TRBracket # ts) e (InArray acc # fs)
      = continue (complete x (InArray acc # fs)) (TComma # separated (map tokens_of (y # zs)) @ TRBracket # ts)"
    using "3.prems"(2) by (intro "3.prems"(1)) auto
  moreover have "run (separated (map tokens_of (y # zs)) @ TRBracket # ts) Value (InArray (acc @ [x]) # fs)
      = continue (complete (JArr ((acc @ [x]) @ y # zs)) fs) ts"
    by (rule "3.IH"(2)) (simp_all add: "3.prems"(1))
  ultimately show ?case
    by (simp add: run_Cons continue_Returns del: run.simps)
qed

lemma run_members:
  assumes each: "\<And>k v ts e fs. (k, v) \<in> set ps \<Longrightarrow> e = Value \<or> e = ValueOrEnd \<Longrightarrow>
                   run (tokens_of v @ ts) e fs = continue (complete v fs) ts"
    and "e = KeyOrEnd \<or> (e = Key \<and> ps \<noteq> [])"
    and "distinct (map fst (acc @ ps))"
    and "\<forall>(k, v) \<in> set ps. \<not> is_index_like k"
  shows "run (separated (map (\<lambda>(k, v). TString k # TColon # tokens_of v) ps) @ TRBrace # ts) e (InObject acc # fs)
           = continue (complete (JObj (acc @ ps)) fs) ts"
  using assms
proof (induction ps arbitrary: acc e rule: induct_list012)
  case 1
  then show ?case
    by (simp add: run_Cons del: run.simps)
next
  case (2 p)
  obtain k v where p: "p = (k, v)"
    by (cases p)
  have "run (tokens_of v @ TRBrace # ts) Value (InMember acc k # fs)
      = continue (complete v (InMember acc k # fs)) (TRBrace # ts)"
    by (rule "2.prems"(1) [of k v]) (simp_all add: p)
  moreover have "put_member k v acc = acc @ [(k, v)]"
    using "2.prems"(3) by (intro put_member_fresh) (auto simp: p)
  moreover have "\<not> is_index_like k"
    using "2.prems"(4) by (simp add: p)
  ultimately show ?case
    using "2.prems"(2)
    by (auto simp: p run_Cons continue_Returns simp del: run.simps)
next
  case (3 p q rs)
  obtain k v where p: "p = (k, v)"
    by (cases p)
  let ?rest = "TComma # separated (map (\<lambda>(k, v). TString k # TColon # tokens_of v) (q # rs)) @ TRBrace # ts"
  have "run (tokens_of v @ ?rest) Value (InMember acc k # fs)
      = continue (complete v (InMember acc k # fs)) ?rest"
    by (rule "3.prems"(1) [of k v]) (simp_all add: p)
  moreover have "put_member k v acc = acc @ [(k, v)]"
    using "3.prems"(3) by (intro put_member_fresh) (auto simp: p)
  moreover have "\<not> is_index_like k"
    using "3.prems"(4) by (simp add: p)
  moreover have "run (separated (map (\<lambda>(k, v). TString k # TColon # tokens_of v) (q # rs)) @ TRBrace # ts)
        Key (InObject (acc @ [(k, v)]) # fs)
      = continue (complete (JObj ((acc @ [(k, v)]) @ q # rs)) fs) ts"
  proof (rule "3.IH"(2))
    fix k' v' ts e fs
    assume "(k', v') \<in> set (q # rs)" "e = Value \<or> e = ValueOrEnd"
    then show "run (tokens_of v' @ ts) e fs = continue (complete v' fs) ts"
      by (intro "3.prems"(1) [of k' v']) simp_all
  next
    show "distinct (map fst ((acc @ [(k, v)]) @ q # rs))"
      using "3.prems"(3) by (simp add: p)
    show "\<forall>(k, v)\<in>set (q # rs). \<not> is_index_like k"
      using "3.prems"(4) by simp
  qed simp
  ultimately show ?case
    using "3.prems"(2)
    by (auto simp: p run_Cons continue_Returns simp del: run.simps)
qed

lemma run_tokens_of:
  "in_model v \<Longrightarrow> e = Value \<or> e = ValueOrEnd \<Longrightarrow>
   run (tokens_of v @ ts) e fs = continue (complete v fs) ts"
proof (induction v arbitrary: ts e fs)
  case JNull
  then show ?case by (auto simp: run_Cons simp del: run.simps)
next
  case (JBool b)
  then show ?case by (auto simp: run_Cons simp del: run.simps)
next
  case (JNum n)
  then show ?case by (auto simp: run_Cons simp del: run.simps)
next
  case (JStr s)
  then show ?case by (auto simp: run_Cons simp del: run.simps)
next
  case (JArr xs)
  have "run (separated (map tokens_of xs) @ TRBracket # ts) ValueOrEnd (InArray [] # fs)
      = continue (complete (JArr ([] @ xs)) fs) ts"
  proof (rule run_elements)
    fix x ts e fs
    assume "x \<in> set xs" "e = Value \<or> e = ValueOrEnd"
    with JArr.prems(1) show "run (tokens_of x @ ts) e fs = continue (complete x fs) ts"
      by (intro JArr.IH) (simp_all add: list_all_iff)
  qed simp
  with JArr.prems(2) show ?case
    by (auto simp: run_Cons continue_Returns simp del: run.simps)
next
  case (JObj ps)
  have "run (separated (map (\<lambda>(k, v). TString k # TColon # tokens_of v) ps) @ TRBrace # ts) KeyOrEnd
          (InObject [] # fs)
      = continue (complete (JObj ([] @ ps)) fs) ts"
  proof (rule run_members)
    fix k v ts e fs
    assume "(k, v) \<in> set ps" "e = Value \<or> e = ValueOrEnd"
    with JObj.prems(1) show "run (tokens_of v @ ts) e fs = continue (complete v fs) ts"
      by (intro JObj.IH [of "(k, v)"]) (auto simp: list_all_iff)
  next
    show "distinct (map fst ([] @ ps))"
      using JObj.prems(1) by simp
    show "\<forall>(k, v)\<in>set ps. \<not> is_index_like k"
      using JObj.prems(1) by (auto simp: list_all_iff)
  qed simp
  with JObj.prems(2) show ?case
    by (auto simp: run_Cons continue_Returns simp del: run.simps)
qed

lemma JSON_parse_JSON_stringify:
  assumes "in_model v"
  shows "JSON_parse (JSON_stringify v) = Returns v"
proof -
  have "lex (JSON_stringify v @ []) = add_tokens (tokens_of v) (lex [])"
    using assms by (rule lex_JSON_stringify) (simp add: follows_punctuation)
  then have "lex (JSON_stringify v) = Returns (tokens_of v)"
    by (simp add: add_tokens_Returns)
  moreover have "run (tokens_of v @ []) Value [] = continue (complete v []) []"
    using assms by (rule run_tokens_of) simp
  ultimately show ?thesis
    by (simp add: JSON_parse_def continue_def)
qed

lemma in_model_MessageCache:
  "list_all (\<lambda>(i, t, n). \<bar>n\<bar> \<le> 2 ^ 53) ms \<Longrightarrow> in_model (MessageCache ms)"
  by (auto simp: MessageCache_def Message_def list_all_iff str_def is_index_like_def is_digit_def)

subsection \<open>Round trip\<close>

text \<open>
  Claim C5. \<^verbatim>\<open>JSON.parse\<close> of what \<^verbatim>\<open>JSON.stringify\<close> writes for a \<^verbatim>\<open>MessageCache\<close> is that
  \<^verbatim>\<open>MessageCache\<close>: the same messages in the same order, each with the same \<^verbatim>\<open>id\<close>,
  \<^verbatim>\<open>text\<close> and \<^verbatim>\<open>timestamp\<close>. A cache is well formed here when every \<^verbatim>\<open>timestamp\<close> is an
  integer of magnitude at most \<open>2^53\<close>, as every time value is; \<^verbatim>\<open>id\<close> and \<^verbatim>\<open>text\<close> are
  any strings.
\<close>

theorem round_trip:
  assumes "list_all (\<lambda>(i, t, n). \<bar>n\<bar> \<le> 2 ^ 53) ms"
  shows "JSON_parse (JSON_stringify (MessageCache ms)) = Returns (MessageCache ms)"
  using assms by (intro JSON_parse_JSON_stringify in_model_MessageCache)

theorem round_trip_witness:
  "list_all (\<lambda>(i, t, n). \<bar>n\<bar> \<le> 2 ^ 53) two_cached
   \<and> JSON_stringify (MessageCache two_cached) =
       str ''[{\"id\":\"1\",\"text\":\"Test message\",\"timestamp\":1642680000000},{\"id\":\"2\",\"text\":\"''
       @ [0x5C, 0x22, 0x5C, 0x5C, 0x5C, 0x6E, 0xE9, 0xD83D, 0xDE00, 0x5C, 0x75, 0x64, 0x38, 0x30, 0x30]
       @ str ''\",\"timestamp\":1642680060000}]''
   \<and> JSON_parse (JSON_stringify (MessageCache two_cached)) = Returns (MessageCache two_cached)"
proof -
  have a: "list_all (\<lambda>(i, t, n). \<bar>n\<bar> \<le> 2 ^ 53) two_cached"
    by (simp add: two_cached_def)
  have b: "JSON_stringify (MessageCache two_cached) =
       str ''[{\"id\":\"1\",\"text\":\"Test message\",\"timestamp\":1642680000000},{\"id\":\"2\",\"text\":\"''
       @ [0x5C, 0x22, 0x5C, 0x5C, 0x5C, 0x6E, 0xE9, 0xD83D, 0xDE00, 0x5C, 0x75, 0x64, 0x38, 0x30, 0x30]
       @ str ''\",\"timestamp\":1642680060000}]''"
    by (simp add: two_cached_def MessageCache_def Message_def QuoteJSONString_def quote_unit_def
          UnicodeEscape_def hex_char_def is_high_surrogate_def is_low_surrogate_def
          Number_toString_def digits.simps digit_char_def str_def)
  from round_trip [OF a] a b show ?thesis
    by blast
qed

end
